theory Spec2Isabelle
  imports Main
begin

section \<open>Values of the ledger\<close>

text \<open>
  The class \<open>Blockchain\<close> of \<open>src/blockchain.js\<close> keeps an array of blocks and a height
  counter. Its methods are \<open>async\<close> or return promises; each call of a method is modelled
  as run to completion, a rejected promise or a thrown exception being the \<open>Inl\<close> branch
  of a sum. The constructor is the exception: it starts \<open>initializeChain\<close> and returns
  before the genesis block is appended.
  The code throws \<open>Error(message)\<close> objects and, in \<open>getBlockByHash\<close>, rejects with a bare
  string; both are kept apart.
\<close>

datatype failure = Error string | Reason string

text \<open>\<open>String(e)\<close>, as \<open>Error(e)\<close> computes it for the message of the wrapping error.\<close>

fun failureToString :: "failure \<Rightarrow> string" where
  "failureToString (Error m) = ''Error: '' @ m"
| "failureToString (Reason m) = m"

text \<open>
  The two payloads the class builds blocks from: \<open>{ data: "Genesis Block" }\<close> and
  \<open>{ star, address }\<close>. The star itself is opaque.
\<close>

datatype 's data = Data string | StarData 's string

text \<open>
  A block has the five fields \<open>hash\<close>, \<open>height\<close>, \<open>body\<close>, \<open>time\<close> and
  \<open>previousBlockHash\<close>; \<open>null\<close> is \<open>None\<close>. The block's height is \<open>bheight\<close> here, since
  \<open>height\<close> is the counter of the chain.
\<close>

record 's block =
  hash :: "string option"
  bheight :: int
  body :: "'s data"
  time :: string
  previousBlockHash :: "string option"

record 's blockchain =
  chain :: "'s block list"
  height :: int

text \<open>
  \<open>SHA256(JSON.stringify(block)).toString()\<close> comes from the library \<open>crypto-js\<close>: the
  digest of a block, all five fields included, is a parameter \<open>D\<close> of the model.
\<close>

type_synonym 's digest = "'s block \<Rightarrow> string"

text \<open>
  \<open>bitcoinMessage.verify(message, address, signature)\<close> comes from the library
  \<open>bitcoinjs-message\<close>: it answers a boolean or throws, and is a parameter too.
\<close>

type_synonym verifier = "string \<Rightarrow> string \<Rightarrow> string \<Rightarrow> failure + bool"

section \<open>Strings and numbers\<close>

text \<open>
  A string is a list of characters, each a code unit below 256. The clock,
  \<open>new Date().getTime()\<close>, is read as a natural number of milliseconds since the epoch.
\<close>

text \<open>\<open>Number.prototype.toString()\<close> on a non-negative integer: its decimal digits.\<close>

definition digitChar :: "nat \<Rightarrow> char" where
  "digitChar d = ''0123456789'' ! d"

fun toString :: "nat \<Rightarrow> string" where
  "toString n = (if n < 10 then [digitChar n] else toString (n div 10) @ [digitChar (n mod 10)])"

declare toString.simps [simp del]

text \<open>\<open>s.slice(0, -3)\<close>: the string without its last three characters, empty when it has no more.\<close>

definition slice_0_minus3 :: "string \<Rightarrow> string" where
  "slice_0_minus3 s = take (length s - 3) s"

text \<open>\<open>new Date().getTime().toString().slice(0, -3)\<close> at the clock reading \<open>now\<close> (milliseconds).\<close>

definition timeString :: "nat \<Rightarrow> string" where
  "timeString now = slice_0_minus3 (toString now)"

text \<open>\<open>s.split(":")\<close>: the pieces between the separators, at least one piece.\<close>

fun split :: "char \<Rightarrow> string \<Rightarrow> string list" where
  "split sep [] = [] # []"
| "split sep (c # cs) =
     (if c = sep then [] # split sep cs
      else (case split sep cs of [] \<Rightarrow> [c] # [] | w # ws \<Rightarrow> (c # w) # ws))"

text \<open>\<open>xs[i]\<close> on an array: \<open>undefined\<close>, here \<open>None\<close>, out of range.\<close>

definition at :: "'a list \<Rightarrow> int \<Rightarrow> 'a option" where
  "at xs i = (if 0 \<le> i \<and> i < int (length xs) then Some (xs ! nat i) else None)"

text \<open>
  \<open>parseInt(string)\<close> with no radix, after ECMA-262: leading white space is dropped, then an
  optional sign, then a prefix \<open>0x\<close> or \<open>0X\<close> selects radix 16; the longest run of digits of
  the radix is the value, and no digit at all gives \<open>NaN\<close>, which is \<open>None\<close>. The value is a
  mathematical integer: a JavaScript number agrees with it up to \<open>2 ^ 53\<close>, and beyond that
  the comparison of an elapsed time with 300 comes out the same.
\<close>

definition isWhiteSpace :: "char \<Rightarrow> bool" where
  "isWhiteSpace c = (c \<in> set [CHR 0x09, CHR 0x0A, CHR 0x0B, CHR 0x0C, CHR 0x0D, CHR 0x20, CHR 0xA0])"

definition digitTable :: "(char \<times> nat) list" where
  "digitTable =
     [(CHR ''0'', 0), (CHR ''1'', 1), (CHR ''2'', 2), (CHR ''3'', 3), (CHR ''4'', 4),
      (CHR ''5'', 5), (CHR ''6'', 6), (CHR ''7'', 7), (CHR ''8'', 8), (CHR ''9'', 9),
      (CHR ''a'', 10), (CHR ''b'', 11), (CHR ''c'', 12), (CHR ''d'', 13), (CHR ''e'', 14),
      (CHR ''f'', 15), (CHR ''A'', 10), (CHR ''B'', 11), (CHR ''C'', 12), (CHR ''D'', 13),
      (CHR ''E'', 14), (CHR ''F'', 15)]"

definition digitValue :: "nat \<Rightarrow> char \<Rightarrow> nat option" where
  "digitValue radix c =
     (case map_of digitTable c of
        None \<Rightarrow> None
      | Some v \<Rightarrow> if v < radix then Some v else None)"

definition isDigit :: "nat \<Rightarrow> char \<Rightarrow> bool" where
  "isDigit radix c = (digitValue radix c \<noteq> None)"

definition digitsValue :: "nat \<Rightarrow> string \<Rightarrow> nat" where
  "digitsValue radix z = foldl (\<lambda>acc c. acc * radix + the (digitValue radix c)) 0 z"

definition parseDigits :: "int \<Rightarrow> nat \<Rightarrow> string \<Rightarrow> int option" where
  "parseDigits sign radix s =
     (let z = takeWhile (isDigit radix) s
      in if z = [] then None else Some (sign * int (digitsValue radix z)))"

definition parsePrefixed :: "int \<Rightarrow> string \<Rightarrow> int option" where
  "parsePrefixed sign s =
     (if take 2 s = ''0x'' \<or> take 2 s = ''0X'' then parseDigits sign 16 (drop 2 s)
      else parseDigits sign 10 s)"

definition parseInt :: "string \<Rightarrow> int option" where
  "parseInt inputString =
     (let s = dropWhile isWhiteSpace inputString
      in case s of
           [] \<Rightarrow> None
         | c # cs \<Rightarrow>
             if c = CHR ''-'' then parsePrefixed (- 1) cs
             else if c = CHR ''+'' then parsePrefixed 1 cs
             else parsePrefixed 1 s)"

text \<open>\<open>parseInt(message.split(":")[1])\<close>; a missing piece is \<open>undefined\<close>, read as the string "undefined".\<close>

definition messageTime :: "string \<Rightarrow> int option" where
  "messageTime message =
     (case at (split CHR '':'' message) 1 of
        None \<Rightarrow> parseInt ''undefined''
      | Some piece \<Rightarrow> parseInt piece)"

section \<open>Blocks\<close>

text \<open>
  Modelled from the spec: the class \<open>Block\<close> of \<open>block.js\<close>, which is not among the sources.
  A new block carries its payload as body; its hash and its previous hash are the
  \<open>NONE\<close> sentinel, which the code compares with \<open>null\<close>; height and time are placeholders
  that \<open>_addBlock\<close> overwrites before it hashes the block.
\<close>

definition Block :: "'s data \<Rightarrow> 's block" where
  "Block d = \<lparr>hash = None, bheight = 0, body = d, time = ''0'', previousBlockHash = None\<rparr>"

text \<open>
  Modelled from the spec: \<open>block.validate()\<close> of \<open>block.js\<close>, which recomputes the digest of
  the block from its own fields, the stored hash cleared, and compares it with the stored
  hash.
\<close>

definition validate :: "'s digest \<Rightarrow> 's block \<Rightarrow> bool" where
  "validate D b = (hash b = Some (D (b\<lparr>hash := None\<rparr>)))"

text \<open>A hash inside a template literal: \<open>null\<close> prints as "null".\<close>

fun hashString :: "string option \<Rightarrow> string" where
  "hashString None = ''null''"
| "hashString (Some h) = h"

section \<open>The chain\<close>

subsection \<open>validateChain\<close>

text \<open>The two entries that \<open>validateChain\<close> pushes on its error log, for a block with hash \<open>h\<close>.\<close>

definition tamperedMessage :: "string option \<Rightarrow> string" where
  "tamperedMessage h = ''Block '' @ hashString h @ '' was tampered.''"

definition linkageMessage :: "string option \<Rightarrow> string" where
  "linkageMessage h =
     ''Previous block hash doesnt match with '' @ hashString h @
     '' block'' @ [CHR 0x27] @ ''s previous hash property.''"

text \<open>
  One turn of the \<open>for\<close> loop of \<open>validateChain\<close>, on the pair of the error log and the
  previous hash, and the loop as a fold over the chain.
\<close>

definition validateStep :: "'s digest \<Rightarrow> string list \<times> string option \<Rightarrow> 's block
    \<Rightarrow> string list \<times> string option" where
  "validateStep D acc b =
     (let errorLog = fst acc; prevHash = snd acc;
          wasTampered = \<not> validate D b;
          errorLog1 = (if wasTampered then errorLog @ [tamperedMessage (hash b)] else errorLog);
          hashesDontMatch = (previousBlockHash b \<noteq> prevHash);
          errorLog2 = (if hashesDontMatch then errorLog1 @ [linkageMessage (hash b)] else errorLog1)
      in (errorLog2, hash b))"

definition validateChain :: "'s digest \<Rightarrow> 's blockchain \<Rightarrow> string list" where
  "validateChain D s = fst (foldl (validateStep D) ([], None) (chain s))"

subsection \<open>_addBlock, initializeChain and the constructor\<close>

text \<open>
  \<open>_addBlock(block)\<close> at the clock reading \<open>now\<close>. \<open>!prevHash\<close> holds of \<open>undefined\<close> (no block
  at index \<open>height - 1\<close>), of \<open>null\<close> and of the empty string.
\<close>

definition addBlock :: "'s digest \<Rightarrow> nat \<Rightarrow> 's blockchain \<Rightarrow> 's block
    \<Rightarrow> (failure + 's block) \<times> 's blockchain" where
  "addBlock D now s block =
     (let errors = validateChain D s;
          hasErrors = (length errors \<noteq> 0)
      in if hasErrors then (Inl (Error ''Cannot add block because chain has errors.''), s)
         else
           let isNotGenesisBlock = (height s \<noteq> - 1);
               prevHash = (case at (chain s) (height s - 1) of None \<Rightarrow> None | Some b \<Rightarrow> hash b)
           in if isNotGenesisBlock \<and> (prevHash = None \<or> prevHash = Some [])
              then (Inl (Error ''Previous block hash not found.''), s)
              else
                let block1 = (if isNotGenesisBlock then block\<lparr>previousBlockHash := prevHash\<rparr>
                              else block);
                    block2 = block1\<lparr>time := timeString now, bheight := int (length (chain s))\<rparr>;
                    blockHash = D block2;
                    block3 = block2\<lparr>hash := Some blockHash\<rparr>;
                    chain' = chain s @ [block3]
                in (Inr block3, \<lparr>chain = chain', height = int (length chain')\<rparr>))"

definition initializeChain :: "'s digest \<Rightarrow> nat \<Rightarrow> 's blockchain
    \<Rightarrow> (failure + unit) \<times> 's blockchain" where
  "initializeChain D now s =
     (if height s = - 1
      then (case addBlock D now s (Block (Data ''Genesis Block'')) of
              (Inl e, s') \<Rightarrow> (Inl e, s')
            | (Inr b, s') \<Rightarrow> (Inr (), s'))
      else (Inr (), s))"

text \<open>
  The constructor sets the empty chain and the height \<open>- 1\<close> and calls \<open>initializeChain\<close>
  without awaiting it. That call runs as far as the first \<open>await\<close> of \<open>_addBlock\<close>, which
  comes before every write, so \<open>new Blockchain()\<close> returns the ledger empty, with the
  append of the genesis block pending. The pending call is the step \<open>initialized\<close> of the
  reachable states below.
\<close>

definition constructor :: "'s blockchain" where
  "constructor = \<lparr>chain = [], height = - 1\<rparr>"

definition getChainHeight :: "'s blockchain \<Rightarrow> int" where
  "getChainHeight s = height s"

subsection \<open>The ownership proof\<close>

definition requestMessageOwnershipVerification :: "string \<Rightarrow> nat \<Rightarrow> string" where
  "requestMessageOwnershipVerification address now =
     address @ '':'' @ timeString now @ '':starRegistry''"

text \<open>
  The first lines of \<open>submitStar\<close>: the time of the message, the current time in
  seconds, and their difference. A \<open>NaN\<close> on either side of the subtraction makes the
  elapsed time \<open>NaN\<close>, and \<open>NaN > fiveMinutes\<close> is false.
\<close>

definition elapsedTime :: "nat \<Rightarrow> string \<Rightarrow> int option" where
  "elapsedTime now message =
     (let msgTime = messageTime message;
          currentTime = parseInt (timeString now)
      in case currentTime of
           None \<Rightarrow> None
         | Some c \<Rightarrow> (case msgTime of None \<Rightarrow> None | Some m \<Rightarrow> Some (c - m)))"

definition elapsedIsMoreThan5Minutes :: "nat \<Rightarrow> string \<Rightarrow> bool" where
  "elapsedIsMoreThan5Minutes now message =
     (let fiveMinutes = 5 * 60
      in case elapsedTime now message of None \<Rightarrow> False | Some e \<Rightarrow> e > fiveMinutes)"

text \<open>
  \<open>submitStar\<close> reads the clock once, at \<open>now\<close>, and \<open>_addBlock\<close> reads it again, at \<open>now'\<close>.
  An error of \<open>_addBlock\<close> is caught and thrown again as \<open>Error(e)\<close>.
\<close>

definition submitStar :: "'s digest \<Rightarrow> verifier \<Rightarrow> nat \<Rightarrow> nat \<Rightarrow> 's blockchain
    \<Rightarrow> string \<Rightarrow> string \<Rightarrow> string \<Rightarrow> 's \<Rightarrow> (failure + 's block) \<times> 's blockchain" where
  "submitStar D verify now now' s address message signature star =
     (if elapsedIsMoreThan5Minutes now message
      then (Inl (Error ''Elapsed time is more then 5 minutes.''), s)
      else
        (case verify message address signature of
           Inl e \<Rightarrow> (Inl e, s)
         | Inr isValid \<Rightarrow>
             if \<not> isValid
             then (Inl (Error ''Message validation with address and signature failed.''), s)
             else
               (case addBlock D now' s (Block (StarData star address)) of
                  (Inl e, s') \<Rightarrow> (Inl (Error (failureToString e)), s')
                | (Inr blockAdded, s') \<Rightarrow> (Inr blockAdded, s'))))"

subsection \<open>Lookups\<close>

definition getBlockByHash :: "'s blockchain \<Rightarrow> string \<Rightarrow> failure + 's block" where
  "getBlockByHash s h =
     (case find (\<lambda>b. hash b = Some h) (chain s) of
        Some block \<Rightarrow> Inr block
      | None \<Rightarrow> Inl (Reason (''Block with hash '' @ [CHR 0x22] @ h @ [CHR 0x22] @ '' was not found.'')))"

text \<open>\<open>getBlockByHeight\<close> resolves with the block or with \<open>null\<close>, and has no rejecting branch.\<close>

definition getBlockByHeight :: "'s blockchain \<Rightarrow> int \<Rightarrow> failure + 's block option" where
  "getBlockByHeight s n =
     (case find (\<lambda>b. bheight b = n) (chain s) of
        Some block \<Rightarrow> Inr (Some block)
      | None \<Rightarrow> Inr None)"

subsection \<open>Reachable states\<close>

text \<open>
  The states of a ledger from the one that the constructor returns on, used through its
  methods, each call at any clock reading, with any arguments and any answer of the verifier:
  \<open>initializeChain\<close>, \<open>submitStar\<close>, and \<open>_addBlock\<close> on a new block. The lookups,
  \<open>validateChain\<close>, \<open>getChainHeight\<close> and \<open>requestMessageOwnershipVerification\<close> do
  not change the state.
\<close>

inductive reachable :: "'s digest \<Rightarrow> 's blockchain \<Rightarrow> bool" for D :: "'s digest" where
  constructed: "reachable D constructor"
| initialized: "reachable D s \<Longrightarrow> reachable D (snd (initializeChain D now s))"
| appended: "reachable D s \<Longrightarrow> reachable D (snd (addBlock D now s (Block d)))"
| submitted: "reachable D s \<Longrightarrow>
     reachable D (snd (submitStar D verify now now' s address message signature star))"

section \<open>Derived notions\<close>

text \<open>
  What the loop of \<open>validateChain\<close> leaves in its log, block by block: the entries of a
  block depend on the block and on the hash before it, never on the entries of other blocks.
\<close>

fun violations :: "'s digest \<Rightarrow> string option \<Rightarrow> 's block list \<Rightarrow> string list" where
  "violations D p [] = []"
| "violations D p (b # bs) =
     (if validate D b then [] else [tamperedMessage (hash b)]) @
     (if previousBlockHash b = p then [] else [linkageMessage (hash b)]) @
     violations D (hash b) bs"

text \<open>
  The shape of the ledger that the public methods keep: the counter is the length of the
  chain, the chain has its genesis block, every block points at the hash of the one before
  it, and every block sits at the index that its height names.
\<close>

definition wellFormed :: "'s blockchain \<Rightarrow> bool" where
  "wellFormed s \<longleftrightarrow>
     height s = int (length (chain s)) \<and> chain s \<noteq> [] \<and>
     previousBlockHash (chain s ! 0) = None \<and>
     (\<forall>i. 0 < i \<and> i < length (chain s) \<longrightarrow>
        previousBlockHash (chain s ! i) = hash (chain s ! (i - 1))) \<and>
     (\<forall>i < length (chain s). bheight (chain s ! i) = int i)"

text \<open>Every stored block passes its own check.\<close>

definition allValid :: "'s digest \<Rightarrow> 's blockchain \<Rightarrow> bool" where
  "allValid D s \<longleftrightarrow> (\<forall>b \<in> set (chain s). validate D b)"

text \<open>
  The two shapes of a reachable ledger: as the constructor returns it, or with its genesis
  block in place.
\<close>

definition ledgerShape :: "'s blockchain \<Rightarrow> bool" where
  "ledgerShape s \<longleftrightarrow> (chain s = [] \<and> height s = - 1) \<or> wellFormed s"

section \<open>A small instance\<close>

text \<open>
  A digest, two verifiers and a ledger to evaluate the model on. The digest prints the
  height, the time, the previous hash and the body of the block.
\<close>

definition printData :: "string data \<Rightarrow> string" where
  "printData d = (case d of Data x \<Rightarrow> ''data='' @ x | StarData st a \<Rightarrow> ''star='' @ st @ '',address='' @ a)"

definition exampleDigest :: "string digest" where
  "exampleDigest b =
     ''#'' @ toString (nat (bheight b)) @ ''/'' @ time b @ ''/'' @
     hashString (previousBlockHash b) @ ''/'' @ printData (body b)"

definition acceptAll :: verifier where
  "acceptAll message address signature = Inr True"

definition rejectAll :: verifier where
  "rejectAll message address signature = Inr False"

definition emptyLedger :: "string blockchain" where
  "emptyLedger = \<lparr>chain = [], height = - 1\<rparr>"

definition genesisLedger :: "string blockchain" where
  "genesisLedger = snd (initializeChain exampleDigest 1700000000000 constructor)"

definition forgedLedger :: "string blockchain" where
  "forgedLedger =
     genesisLedger\<lparr>chain := (chain genesisLedger)[0 := (chain genesisLedger ! 0)\<lparr>body := Data ''Forged''\<rparr>]\<rparr>"


definition starLedger :: "string blockchain" where
  "starLedger =
     snd (submitStar exampleDigest acceptAll 1700000100000 1700000100500 genesisLedger
            ''1A1z'' ''1A1z:1700000000:starRegistry'' ''sig'' ''Sirius'')"

section \<open>The validator as a list of violations\<close>

lemma foldl_validateStep:
  "fst (foldl (validateStep D) (errorLog, p) bs) = errorLog @ violations D p bs"
  by (induction bs arbitrary: errorLog p) (simp_all add: validateStep_def Let_def)

lemma validateChain_violations: "validateChain D s = violations D None (chain s)"
  by (simp add: validateChain_def foldl_validateStep)

lemma violations_append:
  "violations D p (xs @ ys) = violations D p xs @ violations D (last (p # map hash xs)) ys"
  by (induction xs arbitrary: p) simp_all

lemma violations_Nil_iff:
  "violations D p bs = [] \<longleftrightarrow>
     (\<forall>i < length bs. validate D (bs ! i) \<and>
        previousBlockHash (bs ! i) = (if i = 0 then p else hash (bs ! (i - 1))))"
proof (induction bs arbitrary: p)
  case Nil
  then show ?case by simp
next
  case (Cons b bs)
  let ?Q = "\<lambda>xs q i. validate D (xs ! i) \<and>
        previousBlockHash (xs ! i) = (if i = 0 then q else hash (xs ! (i - 1)))"
  have split: "(\<forall>i < length (b # bs). ?Q (b # bs) p i) \<longleftrightarrow>
      (?Q (b # bs) p 0 \<and> (\<forall>j < length bs. ?Q (b # bs) p (Suc j)))"
    by (auto simp: less_Suc_eq_0_disj)
  have shift: "?Q (b # bs) p (Suc j) = ?Q bs (hash b) j" for j
    by (simp add: nth_Cons')
  have "violations D p (b # bs) = [] \<longleftrightarrow>
      (validate D b \<and> previousBlockHash b = p \<and> violations D (hash b) bs = [])"
    by simp
  also have "\<dots> \<longleftrightarrow> (?Q (b # bs) p 0 \<and> (\<forall>j < length bs. ?Q bs (hash b) j))"
    by (simp add: Cons.IH)
  also have "\<dots> \<longleftrightarrow> (\<forall>i < length (b # bs). ?Q (b # bs) p i)"
    unfolding split shift ..
  finally show ?case .
qed

section \<open>The small instance, evaluated\<close>

lemma genesisLedger_value:
  "genesisLedger =
     \<lparr>chain = [\<lparr>hash = Some ''#0/1700000000/null/data=Genesis Block'', bheight = 0,
                 body = Data ''Genesis Block'', time = ''1700000000'',
                 previousBlockHash = None\<rparr>],
      height = 1\<rparr>"
  by (simp add: genesisLedger_def constructor_def initializeChain_def addBlock_def
      validateChain_def Block_def timeString_def slice_0_minus3_def toString.simps
      digitChar_def exampleDigest_def printData_def Let_def)

lemma forgedLedger_value:
  "forgedLedger =
     \<lparr>chain = [\<lparr>hash = Some ''#0/1700000000/null/data=Genesis Block'', bheight = 0,
                 body = Data ''Forged'', time = ''1700000000'',
                 previousBlockHash = None\<rparr>],
      height = 1\<rparr>"
  by (simp add: forgedLedger_def genesisLedger_value)

lemma forgedLedger_report:
  "validateChain exampleDigest forgedLedger =
     [''Block #0/1700000000/null/data=Genesis Block was tampered.'']"
  by (simp add: forgedLedger_value validateChain_violations validate_def exampleDigest_def
      printData_def toString.simps digitChar_def tamperedMessage_def)

lemma messageTime_example: "messageTime ''1A1z:1700000000:starRegistry'' = Some 1700000000"
  by (simp add: messageTime_def at_def parseInt_def isWhiteSpace_def parsePrefixed_def
      parseDigits_def isDigit_def digitValue_def digitTable_def digitsValue_def)

lemma currentTime_example: "parseInt (timeString 1700000100000) = Some 1700000100"
  by (simp add: timeString_def slice_0_minus3_def toString.simps digitChar_def
      parseInt_def isWhiteSpace_def parsePrefixed_def
      parseDigits_def isDigit_def digitValue_def digitTable_def digitsValue_def)

lemma genesisLedger_valid: "validateChain exampleDigest genesisLedger = []"
  by (simp add: genesisLedger_value validateChain_violations validate_def exampleDigest_def
      printData_def toString.simps digitChar_def)

lemma starLedger_value:
  "starLedger =
     \<lparr>chain = [\<lparr>hash = Some ''#0/1700000000/null/data=Genesis Block'', bheight = 0,
                 body = Data ''Genesis Block'', time = ''1700000000'',
                 previousBlockHash = None\<rparr>,
               \<lparr>hash = Some ''#1/1700000100/#0/1700000000/null/data=Genesis Block/star=Sirius,address=1A1z'',
                 bheight = 1, body = StarData ''Sirius'' ''1A1z'', time = ''1700000100'',
                 previousBlockHash = Some ''#0/1700000000/null/data=Genesis Block''\<rparr>],
      height = 2\<rparr>"
  unfolding starLedger_def submitStar_def elapsedIsMoreThan5Minutes_def elapsedTime_def
    messageTime_example currentTime_example
  by (simp add: acceptAll_def addBlock_def genesisLedger_valid Let_def)
     (simp add: genesisLedger_value at_def Block_def timeString_def slice_0_minus3_def
       toString.simps digitChar_def exampleDigest_def printData_def)

lemma exampleDigest_not_Nil: "\<forall>b. exampleDigest b \<noteq> []"
  by (simp add: exampleDigest_def)

section \<open>Appending\<close>

lemma addBlock_failure:
  "addBlock D now s block = (Inl e, s') \<Longrightarrow> s' = s"
  by (auto simp: addBlock_def Let_def split: if_splits)

lemma addBlock_corrupt:
  "validateChain D s \<noteq> [] \<Longrightarrow>
   addBlock D now s block = (Inl (Error ''Cannot add block because chain has errors.''), s)"
  by (simp add: addBlock_def Let_def)

lemma addBlock_success:
  assumes "addBlock D now s block = (Inr b', s')"
  shows "validateChain D s = []"
    and "chain s' = chain s @ [b']"
    and "height s' = int (length (chain s)) + 1"
    and "bheight b' = int (length (chain s))"
    and "body b' = body block"
    and "time b' = timeString now"
    and "height s = - 1 \<Longrightarrow> previousBlockHash b' = previousBlockHash block"
    and "height s \<noteq> - 1 \<Longrightarrow>
           \<exists>b. at (chain s) (height s - 1) = Some b \<and> previousBlockHash b' = hash b \<and>
               hash b \<noteq> None \<and> hash b \<noteq> Some []"
    and "hash b' = Some (D (b'\<lparr>hash := hash block\<rparr>))"
  using assms
  by (auto simp: addBlock_def Let_def split: if_splits option.splits)

lemma addBlock_genesis:
  "addBlock D now \<lparr>chain = [], height = - 1\<rparr> block =
     (Inr (block\<lparr>time := timeString now, bheight := 0, hash := Some (D (block\<lparr>time := timeString now, bheight := 0\<rparr>))\<rparr>),
      \<lparr>chain = [block\<lparr>time := timeString now, bheight := 0, hash := Some (D (block\<lparr>time := timeString now, bheight := 0\<rparr>))\<rparr>],
       height = 1\<rparr>)"
  by (simp add: addBlock_def validateChain_def Let_def)

lemma at_last:
  "xs \<noteq> [] \<Longrightarrow> at xs (int (length xs) - 1) = Some (last xs)"
  by (cases xs rule: rev_cases) (simp_all add: at_def nat_diff_distrib')

lemma addBlock_height_mono: "height s \<le> height (snd (addBlock D now s block))"
proof (cases "addBlock D now s block")
  case (Pair r s')
  show ?thesis
  proof (cases r)
    case (Inl e)
    with Pair have "s' = s" by (simp add: addBlock_failure)
    with Pair show ?thesis by simp
  next
    case (Inr b')
    with Pair have ok: "addBlock D now s block = (Inr b', s')" by simp
    have h': "height s' = int (length (chain s)) + 1" by (rule addBlock_success(3) [OF ok])
    show ?thesis
    proof (cases "height s = - 1")
      case True
      with h' Pair show ?thesis by simp
    next
      case False
      from addBlock_success(8) [OF ok False]
      have "height s - 1 < int (length (chain s))"
        by (auto simp: at_def split: if_splits)
      with h' Pair show ?thesis by simp
    qed
  qed
qed

text \<open>
  C1. A failing \<open>_addBlock\<close> leaves the chain and the height as they were; when the
  validation that precedes the append reports a violation, \<open>_addBlock\<close> fails with the
  error that the chain has errors, and the state is the one before the call.
\<close>

theorem addBlock_failure_keeps_state:
  "(addBlock D now s block = (Inl e, s') \<longrightarrow> chain s' = chain s \<and> height s' = height s \<and> s' = s) \<and>
   (validateChain D s \<noteq> [] \<longrightarrow>
      addBlock D now s block = (Inl (Error ''Cannot add block because chain has errors.''), s))"
  using addBlock_failure [of D now s block e s'] addBlock_corrupt [of D s now block] by blast

theorem addBlock_failure_keeps_state_witness:
  "validateChain exampleDigest forgedLedger \<noteq> [] \<and>
   addBlock exampleDigest 1700000300000 forgedLedger (Block (StarData ''Sirius'' ''1A1z''))
     = (Inl (Error ''Cannot add block because chain has errors.''), forgedLedger)"
proof -
  have corrupt: "validateChain exampleDigest forgedLedger \<noteq> []"
    by (simp add: forgedLedger_report)
  from addBlock_failure_keeps_state [of exampleDigest 1700000300000 forgedLedger
      "Block (StarData ''Sirius'' ''1A1z'')" "Error ''Cannot add block because chain has errors.''"
      forgedLedger] corrupt
  show ?thesis by blast
qed

section \<open>The shape of reachable ledgers\<close>

lemma wellFormed_addBlock:
  assumes wf: "wellFormed s"
  shows "wellFormed (snd (addBlock D now s block))"
proof (cases "addBlock D now s block")
  case (Pair r s')
  show ?thesis
  proof (cases r)
    case (Inl e)
    with Pair have "s' = s" by (simp add: addBlock_failure)
    with Pair wf show ?thesis by simp
  next
    case (Inr b')
    with Pair have ok: "addBlock D now s block = (Inr b', s')" by simp
    from wf have len: "height s = int (length (chain s))" and ne: "chain s \<noteq> []"
      by (simp_all add: wellFormed_def)
    from len ne have notgen: "height s \<noteq> - 1" by simp
    have ch: "chain s' = chain s @ [b']" by (rule addBlock_success(2) [OF ok])
    have h': "height s' = int (length (chain s)) + 1" by (rule addBlock_success(3) [OF ok])
    have bh: "bheight b' = int (length (chain s))" by (rule addBlock_success(4) [OF ok])
    from addBlock_success(8) [OF ok notgen] at_last [OF ne] len
    have prev: "previousBlockHash b' = hash (last (chain s))" by auto
    have last: "last (chain s) = chain s ! (length (chain s) - 1)"
      using ne by (simp add: last_conv_nth)
    have "wellFormed s'"
      unfolding wellFormed_def
    proof (intro conjI allI impI)
      show "height s' = int (length (chain s'))" using h' ch by simp
      show "chain s' \<noteq> []" using ch by simp
      show "previousBlockHash (chain s' ! 0) = None"
        using wf ne ch by (simp add: wellFormed_def nth_append)
    next
      fix i assume i: "0 < i \<and> i < length (chain s')"
      show "previousBlockHash (chain s' ! i) = hash (chain s' ! (i - 1))"
      proof (cases "i < length (chain s)")
        case True
        then have "i - 1 < length (chain s)" by simp
        with True i wf ch show ?thesis by (simp add: wellFormed_def nth_append)
      next
        case False
        with i ch have "i = length (chain s)" by simp
        with ch prev last ne show ?thesis by (simp add: nth_append)
      qed
    next
      fix i assume i: "i < length (chain s')"
      show "bheight (chain s' ! i) = int i"
      proof (cases "i < length (chain s)")
        case True
        with wf ch show ?thesis by (simp add: wellFormed_def nth_append)
      next
        case False
        with i ch have "i = length (chain s)" by simp
        with ch bh show ?thesis by (simp add: nth_append)
      qed
    qed
    with Pair show ?thesis by simp
  qed
qed

lemma wellFormed_first_block:
  "chain s = [] \<Longrightarrow> height s = - 1 \<Longrightarrow> wellFormed (snd (addBlock D now s (Block d)))"
proof -
  assume "chain s = []" and "height s = - 1"
  then have "s = \<lparr>chain = [], height = - 1\<rparr>" by simp
  then show ?thesis
    by (auto simp: addBlock_genesis wellFormed_def Block_def)
qed

lemma ledgerShape_addBlock: "ledgerShape s \<Longrightarrow> ledgerShape (snd (addBlock D now s (Block d)))"
  using wellFormed_first_block [of s D now d] wellFormed_addBlock [of s D now "Block d"]
  by (auto simp: ledgerShape_def)

lemma submitStar_state:
  "snd (submitStar D verify now now' s address message signature star) = s \<or>
   snd (submitStar D verify now now' s address message signature star)
     = snd (addBlock D now' s (Block (StarData star address)))"
  by (auto simp: submitStar_def split: sum.splits prod.splits)

lemma initializeChain_state:
  "snd (initializeChain D now s) = s \<or>
   snd (initializeChain D now s) = snd (addBlock D now s (Block (Data ''Genesis Block'')))"
  by (auto simp: initializeChain_def split: sum.splits prod.splits)

lemma reachable_shape: "reachable D s \<Longrightarrow> ledgerShape s"
proof (induction rule: reachable.induct)
  case constructed
  show ?case by (simp add: ledgerShape_def constructor_def)
next
  case (initialized s now)
  with initializeChain_state [of D now s]
    ledgerShape_addBlock [of s D now "Data ''Genesis Block''"]
  show ?case by auto
next
  case (appended s now d)
  then show ?case by (simp add: ledgerShape_addBlock)
next
  case (submitted s verify now now' address message signature star)
  with submitStar_state [of D verify now now' s address message signature star]
    ledgerShape_addBlock [of s D now' "StarData star address"]
  show ?case by auto
qed

lemma submitStar_height_mono:
  "height s \<le> height (snd (submitStar D verify now now' s address message signature star))"
  using submitStar_state [of D verify now now' s address message signature star]
    addBlock_height_mono [of s D now' "Block (StarData star address)"]
  by auto

lemma initializeChain_height_mono: "height s \<le> height (snd (initializeChain D now s))"
  using initializeChain_state [of D now s]
    addBlock_height_mono [of s D now "Block (Data ''Genesis Block'')"]
  by auto

lemma find_by_height:
  "\<forall>i < length xs. bheight (xs ! i) = int (k + i) \<Longrightarrow>
   find (\<lambda>b. bheight b = n) xs =
     (if int k \<le> n \<and> n < int (k + length xs) then Some (xs ! (nat n - k)) else None)"
proof (induction xs arbitrary: k)
  case Nil
  then show ?case by simp
next
  case (Cons x xs)
  from Cons.prems have hd: "bheight x = int k" by fastforce
  from Cons.prems have tl: "\<forall>i < length xs. bheight (xs ! i) = int (Suc k + i)" by fastforce
  show ?case
  proof (cases "n = int k")
    case True
    with hd show ?thesis by simp
  next
    case False
    with hd have "find (\<lambda>b. bheight b = n) (x # xs) = find (\<lambda>b. bheight b = n) xs" by simp
    also have "\<dots> = (if int (Suc k) \<le> n \<and> n < int (Suc k + length xs)
                     then Some (xs ! (nat n - Suc k)) else None)"
      by (rule Cons.IH [OF tl])
    also have "\<dots> = (if int k \<le> n \<and> n < int (k + length (x # xs))
                     then Some ((x # xs) ! (nat n - k)) else None)"
      using False by (auto simp: nth_Cons' nat_le_iff)
    finally show ?thesis .
  qed
qed

lemma reachable_genesisLedger: "reachable exampleDigest genesisLedger"
  unfolding genesisLedger_def by (rule reachable.initialized [OF reachable.constructed])

lemma reachable_starLedger: "reachable exampleDigest starLedger"
  unfolding starLedger_def by (rule reachable.submitted [OF reachable_genesisLedger])

text \<open>
  C4, amended. In every state that the methods reach from the ledger that the constructor
  returns, every block after the first carries the hash of the block before it, and either
  the append of the genesis block is still pending, the chain is empty and the height
  counter is \<open>- 1\<close>, or the first block has no previous hash and the height counter is the
  length of the chain. No mutating method, in any state, lowers the height counter.
\<close>

theorem reachable_linked_and_counted:
  "(reachable D s \<longrightarrow>
      (\<forall>i. 0 < i \<and> i < length (chain s) \<longrightarrow>
         previousBlockHash (chain s ! i) = hash (chain s ! (i - 1))) \<and>
      ((chain s = [] \<and> height s = - 1) \<or>
       (chain s \<noteq> [] \<and> previousBlockHash (chain s ! 0) = None \<and>
        height s = int (length (chain s))))) \<and>
   height t \<le> height (snd (addBlock D now t block)) \<and>
   height t \<le> height (snd (initializeChain D now t)) \<and>
   height t \<le> height (snd (submitStar D verify now now' t address message signature star))"
proof (intro conjI impI)
  assume "reachable D s"
  then have shape: "ledgerShape s" by (rule reachable_shape)
  show "\<forall>i. 0 < i \<and> i < length (chain s) \<longrightarrow>
         previousBlockHash (chain s ! i) = hash (chain s ! (i - 1))"
    using shape by (auto simp: ledgerShape_def wellFormed_def)
  show "(chain s = [] \<and> height s = - 1) \<or>
       (chain s \<noteq> [] \<and> previousBlockHash (chain s ! 0) = None \<and>
        height s = int (length (chain s)))"
    using shape by (auto simp: ledgerShape_def wellFormed_def)
next
  show "height t \<le> height (snd (addBlock D now t block))"
    by (rule addBlock_height_mono)
  show "height t \<le> height (snd (initializeChain D now t))"
    by (rule initializeChain_height_mono)
  show "height t \<le> height (snd (submitStar D verify now now' t address message signature star))"
    by (rule submitStar_height_mono)
qed

theorem reachable_linked_and_counted_witness:
  "reachable exampleDigest starLedger \<and>
   length (chain starLedger) = 2 \<and>
   previousBlockHash (chain starLedger ! 0) = None \<and>
   previousBlockHash (chain starLedger ! 1) = hash (chain starLedger ! 0) \<and>
   height starLedger = 2 \<and>
   height genesisLedger \<le> height starLedger"
proof -
  have len: "length (chain starLedger) = 2" by (simp add: starLedger_value)
  then have ne: "chain starLedger \<noteq> []" by auto
  from reachable_linked_and_counted [of exampleDigest starLedger genesisLedger
        1700000100000 "Block (Data ''Genesis Block'')" acceptAll 1700000100500
        "''1A1z''" "''1A1z:1700000000:starRegistry''" "''sig''" "''Sirius''"]
      reachable_starLedger ne
  have inst: "(\<forall>i. 0 < i \<and> i < length (chain starLedger) \<longrightarrow>
         previousBlockHash (chain starLedger ! i) = hash (chain starLedger ! (i - 1))) \<and>
      previousBlockHash (chain starLedger ! 0) = None \<and>
      height starLedger = int (length (chain starLedger)) \<and>
      height genesisLedger \<le> height (snd (submitStar exampleDigest acceptAll 1700000100000
          1700000100500 genesisLedger ''1A1z'' ''1A1z:1700000000:starRegistry'' ''sig'' ''Sirius''))"
    by blast
  from inst len have "previousBlockHash (chain starLedger ! 1) = hash (chain starLedger ! 0)"
    by auto
  with inst len reachable_starLedger show ?thesis
    by (simp add: starLedger_def [symmetric])
qed

text \<open>
  The claim C4 as it was stated fails at the ledger that the constructor returns: it is
  reachable, its chain is empty, and its height counter is not the length of its chain.
\<close>

theorem constructor_height_counterexample:
  "reachable exampleDigest constructor \<and>
   chain (constructor :: string blockchain) = [] \<and>
   height (constructor :: string blockchain) = - 1 \<and>
   height (constructor :: string blockchain) \<noteq> int (length (chain (constructor :: string blockchain)))"
  by (simp add: reachable.constructed) (simp add: constructor_def)

text \<open>
  C5, amended. When \<open>_addBlock\<close> succeeds in a state whose height counter is the length
  of the chain, the counter grows by exactly one, the stored block is the new last block
  and the value returned, its height is the former length, its previous hash is the hash of
  the former last block, and its body is the body handed in. In the genesis case, the empty
  chain with the counter at \<open>- 1\<close>, the append of a new block always succeeds, the
  counter becomes 1, and the stored and returned block has height 0, no previous hash and
  the body handed in.
\<close>

theorem addBlock_success_shape:
  "(height s = int (length (chain s)) \<and> addBlock D now s block = (Inr b', s') \<longrightarrow>
      chain s \<noteq> [] \<and>
      height s' = height s + 1 \<and>
      chain s' = chain s @ [b'] \<and>
      bheight b' = int (length (chain s)) \<and>
      previousBlockHash b' = hash (last (chain s)) \<and>
      body b' = body block) \<and>
   (addBlock D now \<lparr>chain = [], height = - 1\<rparr> (Block d) = (Inr g, t) \<longrightarrow>
      height t = 1 \<and> chain t = [g] \<and> bheight g = 0 \<and> previousBlockHash g = None \<and> body g = d) \<and>
   (\<exists>g t. addBlock D now \<lparr>chain = [], height = - 1\<rparr> (Block d) = (Inr g, t))"
proof (intro conjI impI)
  assume a: "height s = int (length (chain s)) \<and> addBlock D now s block = (Inr b', s')"
  then have len: "height s = int (length (chain s))"
    and ok: "addBlock D now s block = (Inr b', s')" by simp_all
  from len have notgen: "height s \<noteq> - 1" by simp
  from addBlock_success(8) [OF ok notgen] len
  have ne: "chain s \<noteq> []" by (auto simp: at_def split: if_splits)
  from addBlock_success(8) [OF ok notgen] at_last [OF ne] len
  have prev: "previousBlockHash b' = hash (last (chain s))" by auto
  show "chain s \<noteq> []" by (rule ne)
  show "height s' = height s + 1" using addBlock_success(3) [OF ok] len by simp
  show "chain s' = chain s @ [b']" by (rule addBlock_success(2) [OF ok])
  show "bheight b' = int (length (chain s))" by (rule addBlock_success(4) [OF ok])
  show "previousBlockHash b' = hash (last (chain s))" by (rule prev)
  show "body b' = body block" by (rule addBlock_success(5) [OF ok])
next
  assume g: "addBlock D now \<lparr>chain = [], height = - 1\<rparr> (Block d) = (Inr g, t)"
  then show "height t = 1" by (auto simp: addBlock_genesis)
  from g show "chain t = [g]" by (auto simp: addBlock_genesis)
  from g show "bheight g = 0" by (auto simp: addBlock_genesis)
  from g show "previousBlockHash g = None" by (auto simp: addBlock_genesis Block_def)
  from g show "body g = d" by (auto simp: addBlock_genesis Block_def)
next
  show "\<exists>g t. addBlock D now \<lparr>chain = [], height = - 1\<rparr> (Block d) = (Inr g, t)"
    by (simp add: addBlock_genesis)
qed

lemma addBlock_example:
  "addBlock exampleDigest 1700000100500 genesisLedger (Block (StarData ''Sirius'' ''1A1z'')) =
     (Inr \<lparr>hash = Some ''#1/1700000100/#0/1700000000/null/data=Genesis Block/star=Sirius,address=1A1z'',
           bheight = 1, body = StarData ''Sirius'' ''1A1z'', time = ''1700000100'',
           previousBlockHash = Some ''#0/1700000000/null/data=Genesis Block''\<rparr>,
      starLedger)"
  unfolding starLedger_value
  by (simp add: addBlock_def genesisLedger_valid Let_def)
     (simp add: genesisLedger_value at_def Block_def timeString_def slice_0_minus3_def
       toString.simps digitChar_def exampleDigest_def printData_def)

theorem addBlock_success_shape_witness:
  "height genesisLedger = int (length (chain genesisLedger)) \<and>
   addBlock exampleDigest 1700000100500 genesisLedger (Block (StarData ''Sirius'' ''1A1z'')) =
     (Inr (last (chain starLedger)), starLedger) \<and>
   height starLedger = height genesisLedger + 1 \<and>
   chain starLedger = chain genesisLedger @ [last (chain starLedger)] \<and>
   bheight (last (chain starLedger)) = 1 \<and>
   previousBlockHash (last (chain starLedger)) = hash (last (chain genesisLedger)) \<and>
   body (last (chain starLedger)) = StarData ''Sirius'' ''1A1z''"
proof -
  have len: "height genesisLedger = int (length (chain genesisLedger))"
    by (simp add: genesisLedger_value)
  have ok: "addBlock exampleDigest 1700000100500 genesisLedger (Block (StarData ''Sirius'' ''1A1z'')) =
     (Inr (last (chain starLedger)), starLedger)"
    unfolding addBlock_example by (simp add: starLedger_value)
  have one: "int (length (chain genesisLedger)) = 1" by (simp add: genesisLedger_value)
  have bd: "body (Block (StarData ''Sirius'' ''1A1z'')) = StarData ''Sirius'' ''1A1z''"
    by (simp add: Block_def)
  from addBlock_success_shape [of genesisLedger exampleDigest 1700000100500
      "Block (StarData ''Sirius'' ''1A1z'')" "last (chain starLedger)" starLedger] len ok
  show ?thesis unfolding one bd by blast
qed

text \<open>
  The claim C5 as it was stated fails at the append of the genesis block that the
  constructor starts: the append succeeds and the height counter goes from \<open>- 1\<close> to 1.
\<close>

theorem addBlock_genesis_height_counterexample:
  "addBlock exampleDigest 1700000000000 emptyLedger (Block (Data ''Genesis Block'')) =
     (Inr \<lparr>hash = Some ''#0/1700000000/null/data=Genesis Block'', bheight = 0,
           body = Data ''Genesis Block'', time = ''1700000000'', previousBlockHash = None\<rparr>,
      genesisLedger) \<and>
   height emptyLedger = - 1 \<and> height genesisLedger = 1 \<and>
   height genesisLedger \<noteq> height emptyLedger + 1"
  unfolding genesisLedger_value
  by (simp add: emptyLedger_def addBlock_genesis Block_def timeString_def slice_0_minus3_def
      toString.simps digitChar_def exampleDigest_def printData_def)

section \<open>Lookups\<close>

lemma find_None_hash:
  "\<forall>b \<in> set xs. hash b \<noteq> Some h \<Longrightarrow> find (\<lambda>b. hash b = Some h) xs = None"
  by (induction xs) simp_all

lemma ledgerShape_find:
  assumes "ledgerShape s"
  shows "find (\<lambda>b. bheight b = n) (chain s) =
     (if 0 \<le> n \<and> n < height s then Some (chain s ! nat n) else None)"
proof (cases "wellFormed s")
  case True
  then have "\<forall>i < length (chain s). bheight (chain s ! i) = int (0 + i)"
    and "height s = int (length (chain s))"
    by (simp_all add: wellFormed_def)
  with find_by_height [of "chain s" 0 n] show ?thesis by simp
next
  case False
  with assms have "chain s = []" and "height s = - 1" by (simp_all add: ledgerShape_def)
  then show ?thesis by simp
qed

text \<open>
  C8. \<open>getBlockByHash\<close> with a hash that no stored block carries is rejected with the
  message that the block was not found. \<open>getBlockByHeight\<close> at a height from the height
  counter upwards resolves with \<open>null\<close> in every reachable state, and in no state at all
  is it rejected.
\<close>

theorem lookup_misses:
  "((\<forall>b \<in> set (chain s). hash b \<noteq> Some h) \<longrightarrow>
      getBlockByHash s h =
        Inl (Reason (''Block with hash '' @ [CHR 0x22] @ h @ [CHR 0x22] @ '' was not found.''))) \<and>
   (reachable D s \<and> getChainHeight s \<le> n \<longrightarrow> getBlockByHeight s n = Inr None) \<and>
   \<not> isl (getBlockByHeight s n)"
proof (intro conjI impI)
  assume "\<forall>b \<in> set (chain s). hash b \<noteq> Some h"
  then show "getBlockByHash s h =
        Inl (Reason (''Block with hash '' @ [CHR 0x22] @ h @ [CHR 0x22] @ '' was not found.''))"
    by (simp add: getBlockByHash_def find_None_hash)
next
  assume a: "reachable D s \<and> getChainHeight s \<le> n"
  then have "ledgerShape s" by (auto intro: reachable_shape)
  with a show "getBlockByHeight s n = Inr None"
    by (simp add: getBlockByHeight_def getChainHeight_def ledgerShape_find)
next
  show "\<not> isl (getBlockByHeight s n)"
    by (simp add: getBlockByHeight_def split: option.splits)
qed

theorem lookup_misses_witness:
  "Some ''cafe'' \<notin> set (map hash (chain starLedger)) \<and>
   getBlockByHash starLedger ''cafe'' =
     Inl (Reason (''Block with hash '' @ [CHR 0x22] @ ''cafe'' @ [CHR 0x22] @ '' was not found.'')) \<and>
   reachable exampleDigest starLedger \<and> getChainHeight starLedger \<le> 2 \<and>
   getBlockByHeight starLedger 2 = Inr None"
proof -
  have miss: "\<forall>b \<in> set (chain starLedger). hash b \<noteq> Some ''cafe''"
    by (simp add: starLedger_value)
  have h: "getChainHeight starLedger \<le> 2"
    by (simp add: getChainHeight_def starLedger_value)
  have absent: "Some ''cafe'' \<notin> set (map hash (chain starLedger))"
    by (simp add: starLedger_value)
  from lookup_misses [of starLedger "''cafe''" exampleDigest 2] miss h reachable_starLedger
  have "getBlockByHash starLedger ''cafe'' =
     Inl (Reason (''Block with hash '' @ [CHR 0x22] @ ''cafe'' @ [CHR 0x22] @ '' was not found.'')) \<and>
   getBlockByHeight starLedger 2 = Inr None"
    by blast
  with absent h reachable_starLedger show ?thesis by simp
qed

text \<open>
  C10. In every reachable state the height of each stored block is its index in the chain,
  and so \<open>getBlockByHeight\<close> at a height from 0 below the height counter resolves with
  the block stored at that index.
\<close>

theorem heights_are_indices:
  "reachable D s \<Longrightarrow>
     (\<forall>i < length (chain s). bheight (chain s ! i) = int i) \<and>
     (\<forall>n. 0 \<le> n \<and> n < getChainHeight s \<longrightarrow>
        getBlockByHeight s n = Inr (Some (chain s ! nat n)))"
proof -
  assume "reachable D s"
  then have wf: "ledgerShape s" by (rule reachable_shape)
  then have "\<forall>i < length (chain s). bheight (chain s ! i) = int i"
    by (auto simp: ledgerShape_def wellFormed_def)
  moreover have "\<forall>n. 0 \<le> n \<and> n < getChainHeight s \<longrightarrow>
        getBlockByHeight s n = Inr (Some (chain s ! nat n))"
    by (simp add: getBlockByHeight_def getChainHeight_def ledgerShape_find [OF wf])
  ultimately show ?thesis by simp
qed

theorem heights_are_indices_witness:
  "reachable exampleDigest starLedger \<and>
   bheight (chain starLedger ! 0) = 0 \<and> bheight (chain starLedger ! 1) = 1 \<and>
   getBlockByHeight starLedger 1 = Inr (Some (chain starLedger ! 1))"
proof -
  have len: "length (chain starLedger) = 2" and h: "getChainHeight starLedger = 2"
    by (simp_all add: starLedger_value getChainHeight_def)
  from heights_are_indices [OF reachable_starLedger] len h
  have "bheight (chain starLedger ! 0) = int 0" and "bheight (chain starLedger ! 1) = int 1"
    and "getBlockByHeight starLedger 1 = Inr (Some (chain starLedger ! nat 1))"
    by simp_all
  with reachable_starLedger show ?thesis by simp
qed

section \<open>Tampering\<close>

lemma violations_mem:
  assumes "i < length bs"
  shows "(\<not> validate D (bs ! i) \<longrightarrow> tamperedMessage (hash (bs ! i)) \<in> set (violations D p bs)) \<and>
         (previousBlockHash (bs ! i) \<noteq> (if i = 0 then p else hash (bs ! (i - 1))) \<longrightarrow>
            linkageMessage (hash (bs ! i)) \<in> set (violations D p bs))"
  using assms
proof (induction bs arbitrary: p i)
  case Nil
  then show ?case by simp
next
  case (Cons b bs)
  show ?case
  proof (cases i)
    case 0
    then show ?thesis by simp
  next
    case (Suc j)
    with Cons.prems have j: "j < length bs" by simp
    from Cons.IH [OF j, of "hash b"] Suc show ?thesis
      by (auto simp: nth_Cons')
  qed
qed

lemma violations_update_body:
  assumes "i < length bs"
    and "violations D p bs = []"
    and "D ((bs ! i)\<lparr>body := d, hash := None\<rparr>) \<noteq> D ((bs ! i)\<lparr>hash := None\<rparr>)"
  shows "violations D p (bs[i := (bs ! i)\<lparr>body := d\<rparr>]) = [tamperedMessage (hash (bs ! i))]"
  using assms
proof (induction bs arbitrary: p i)
  case Nil
  then show ?case by simp
next
  case (Cons b bs)
  from Cons.prems(2) have vb: "validate D b" and pb: "previousBlockHash b = p"
    and rest: "violations D (hash b) bs = []"
    by (simp_all split: if_splits)
  show ?case
  proof (cases i)
    case 0
    from vb have "hash b = Some (D (b\<lparr>hash := None\<rparr>))" by (simp add: validate_def)
    with Cons.prems(3) 0 have "\<not> validate D (b\<lparr>body := d\<rparr>)"
      by (auto simp: validate_def)
    with 0 pb rest show ?thesis by simp
  next
    case (Suc j)
    with Cons.prems have j: "j < length bs"
      and dj: "D ((bs ! j)\<lparr>body := d, hash := None\<rparr>) \<noteq> D ((bs ! j)\<lparr>hash := None\<rparr>)"
      by simp_all
    from Cons.IH [OF j rest dj] Suc vb pb show ?thesis by simp
  qed
qed

text \<open>
  C6. Take a chain on which \<open>validateChain\<close> reports nothing and change the body of one
  stored block, leaving its hash as it was, such that the digest of the block changes (two
  bodies with the same digest cannot be told apart by any validator). Then
  \<open>validateChain\<close> reports exactly one entry, the tampering of the block with the stored
  hash of the changed block. The validator does not stop at a violation: in any chain, every
  block that fails its own check has its tampering entry in the report, every block whose
  previous hash is not the hash before it has its linkage entry in the report, and the
  report of a chain is the report of any front part followed by the entries of the rest.
\<close>

theorem validateChain_reports_tampering:
  "(i < length (chain s) \<and> validateChain D s = [] \<and>
    D ((chain s ! i)\<lparr>body := d, hash := None\<rparr>) \<noteq> D ((chain s ! i)\<lparr>hash := None\<rparr>) \<longrightarrow>
      validateChain D (s\<lparr>chain := (chain s)[i := (chain s ! i)\<lparr>body := d\<rparr>]\<rparr>) =
        [''Block '' @ the (hash (chain s ! i)) @ '' was tampered.''] \<and>
      hash (chain s ! i) \<noteq> None) \<and>
   (j < length (chain t) \<and> \<not> validate D (chain t ! j) \<longrightarrow>
      tamperedMessage (hash (chain t ! j)) \<in> set (validateChain D t)) \<and>
   (j < length (chain t) \<and>
    previousBlockHash (chain t ! j) \<noteq> (if j = 0 then None else hash (chain t ! (j - 1))) \<longrightarrow>
      linkageMessage (hash (chain t ! j)) \<in> set (validateChain D t)) \<and>
   validateChain D (t\<lparr>chain := xs @ ys\<rparr>) =
     validateChain D (t\<lparr>chain := xs\<rparr>) @ violations D (last (None # map hash xs)) ys"
proof (intro conjI impI)
  assume a: "i < length (chain s) \<and> validateChain D s = [] \<and>
    D ((chain s ! i)\<lparr>body := d, hash := None\<rparr>) \<noteq> D ((chain s ! i)\<lparr>hash := None\<rparr>)"
  then have i: "i < length (chain s)" and v: "violations D None (chain s) = []"
    and dd: "D ((chain s ! i)\<lparr>body := d, hash := None\<rparr>) \<noteq> D ((chain s ! i)\<lparr>hash := None\<rparr>)"
    by (simp_all add: validateChain_violations)
  from v i have "validate D (chain s ! i)" by (simp add: violations_Nil_iff)
  then obtain h where h: "hash (chain s ! i) = Some h" by (simp add: validate_def)
  then show "hash (chain s ! i) \<noteq> None" by simp
  from violations_update_body [OF i v dd] h
  show "validateChain D (s\<lparr>chain := (chain s)[i := (chain s ! i)\<lparr>body := d\<rparr>]\<rparr>) =
        [''Block '' @ the (hash (chain s ! i)) @ '' was tampered.'']"
    by (simp add: validateChain_violations tamperedMessage_def)
next
  assume "j < length (chain t) \<and> \<not> validate D (chain t ! j)"
  with violations_mem [of j "chain t" D None]
  show "tamperedMessage (hash (chain t ! j)) \<in> set (validateChain D t)"
    by (simp add: validateChain_violations)
next
  assume "j < length (chain t) \<and>
    previousBlockHash (chain t ! j) \<noteq> (if j = 0 then None else hash (chain t ! (j - 1)))"
  with violations_mem [of j "chain t" D None]
  show "linkageMessage (hash (chain t ! j)) \<in> set (validateChain D t)"
    by (simp add: validateChain_violations)
next
  show "validateChain D (t\<lparr>chain := xs @ ys\<rparr>) =
     validateChain D (t\<lparr>chain := xs\<rparr>) @ violations D (last (None # map hash xs)) ys"
    by (simp add: validateChain_violations violations_append)
qed

lemma starLedger_valid: "validateChain exampleDigest starLedger = []"
  by (simp add: starLedger_value validateChain_violations validate_def exampleDigest_def
      printData_def toString.simps digitChar_def)

theorem validateChain_reports_tampering_witness:
  "(0::nat) < length (chain starLedger) \<and>
   validateChain exampleDigest starLedger = [] \<and>
   validateChain exampleDigest
     (starLedger\<lparr>chain := (chain starLedger)[0 := (chain starLedger ! 0)\<lparr>body := Data ''Forged''\<rparr>]\<rparr>) =
     [''Block #0/1700000000/null/data=Genesis Block was tampered.'']"
proof -
  have i: "(0::nat) < length (chain starLedger)" by (simp add: starLedger_value)
  have dd: "exampleDigest ((chain starLedger ! 0)\<lparr>body := Data ''Forged'', hash := None\<rparr>) \<noteq>
      exampleDigest ((chain starLedger ! 0)\<lparr>hash := None\<rparr>)"
    by (simp add: starLedger_value exampleDigest_def printData_def)
  have h: "the (hash (chain starLedger ! 0)) = ''#0/1700000000/null/data=Genesis Block''"
    by (simp add: starLedger_value)
  from validateChain_reports_tampering [of 0 starLedger exampleDigest "Data ''Forged''"]
    i starLedger_valid dd
  have "validateChain exampleDigest
     (starLedger\<lparr>chain := (chain starLedger)[0 := (chain starLedger ! 0)\<lparr>body := Data ''Forged''\<rparr>]\<rparr>) =
     [''Block '' @ the (hash (chain starLedger ! 0)) @ '' was tampered.'']"
    by blast
  with i starLedger_valid h show ?thesis by simp
qed

section \<open>The clock as a string\<close>

lemma toString_step: "10 \<le> n \<Longrightarrow> toString n = toString (n div 10) @ [digitChar (n mod 10)]"
  by (subst toString.simps) simp

lemma toString_small: "n < 10 \<Longrightarrow> toString n = [digitChar n]"
  by (subst toString.simps) simp

lemma toString_thousands:
  assumes "1000 \<le> n"
  shows "toString n = toString (n div 1000) @
           [digitChar (n div 100 mod 10), digitChar (n div 10 mod 10), digitChar (n mod 10)]"
proof -
  from assms have a: "10 \<le> n" and b: "10 \<le> n div 10" and c: "10 \<le> n div 10 div 10"
    by simp_all
  have d100: "n div 10 div 10 = n div 100" and d1000: "n div 100 div 10 = n div 1000"
    by (simp_all add: div_mult2_eq [symmetric])
  show ?thesis
    using toString_step [OF a] toString_step [OF b] toString_step [OF c]
    by (simp add: d100 d1000)
qed

lemma timeString_seconds: "1000 \<le> n \<Longrightarrow> timeString n = toString (n div 1000)"
  by (simp add: timeString_def slice_0_minus3_def toString_thousands)

lemma below_ten: "d < 10 \<Longrightarrow> d \<in> {0, 1, 2, 3, 4, 5, 6, 7, 8, 9::nat}"
  by auto

lemma digitValue_digitChar: "d < 10 \<Longrightarrow> digitValue 10 (digitChar d) = Some d"
  using below_ten [of d]
  by (auto simp: digitValue_def digitTable_def digitChar_def)

lemma digitChar_decimal: "d < 10 \<Longrightarrow> digitChar d \<in> set ''0123456789''"
  using below_ten [of d] by (auto simp: digitChar_def)

lemma toString_decimal: "set (toString n) \<subseteq> set ''0123456789''"
proof (induction n rule: toString.induct)
  case (1 n)
  show ?case
  proof (cases "n < 10")
    case True
    then show ?thesis using digitChar_decimal [of n] by (simp add: toString_small)
  next
    case False
    then have "10 \<le> n" by simp
    from toString_step [OF this] "1.IH" [OF False] digitChar_decimal [of "n mod 10"]
    show ?thesis by simp
  qed
qed

lemma toString_not_Nil: "toString n \<noteq> []"
  by (subst toString.simps) simp

lemma decimal_all:
  "\<forall>c \<in> set ''0123456789''. isDigit 10 c \<and> \<not> isWhiteSpace c \<and> c \<noteq> CHR ''-'' \<and>
     c \<noteq> CHR ''+'' \<and> c \<noteq> CHR ''x'' \<and> c \<noteq> CHR ''X'' \<and> c \<noteq> CHR '':''"
  by (simp add: isDigit_def digitValue_def digitTable_def isWhiteSpace_def)

lemma decimal_isDigit: "c \<in> set ''0123456789'' \<Longrightarrow> isDigit 10 c"
  using decimal_all by blast

lemma digitsValue_snoc:
  "digitsValue r (z @ [c]) = digitsValue r z * r + the (digitValue r c)"
  by (simp add: digitsValue_def)

lemma digitsValue_toString: "digitsValue 10 (toString n) = n"
proof (induction n rule: toString.induct)
  case (1 n)
  show ?case
  proof (cases "n < 10")
    case True
    then show ?thesis
      by (simp add: toString_small digitsValue_def digitValue_digitChar)
  next
    case False
    then have ge: "10 \<le> n" by simp
    have "digitsValue 10 (toString n) =
        digitsValue 10 (toString (n div 10)) * 10 + the (digitValue 10 (digitChar (n mod 10)))"
      by (simp add: toString_step [OF ge] digitsValue_snoc)
    also have "\<dots> = n div 10 * 10 + n mod 10"
      by (simp add: "1.IH" [OF False] digitValue_digitChar)
    finally show ?thesis by simp
  qed
qed

lemma parseDigits_toString: "parseDigits sign 10 (toString n) = Some (sign * int n)"
proof -
  have "\<forall>c \<in> set (toString n). isDigit 10 c"
    using toString_decimal [of n] decimal_isDigit by blast
  then have tw: "takeWhile (isDigit 10) (toString n) = toString n"
    by simp
  show ?thesis
    unfolding parseDigits_def tw Let_def
    by (simp add: toString_not_Nil digitsValue_toString)
qed

lemma parsePrefixed_toString: "parsePrefixed sign (toString n) = Some (sign * int n)"
proof -
  have no_x: "CHR ''x'' \<notin> set (toString n)" "CHR ''X'' \<notin> set (toString n)"
    using toString_decimal [of n] decimal_all by blast+
  have "take 2 (toString n) \<noteq> ''0x''"
  proof
    assume "take 2 (toString n) = ''0x''"
    then have "CHR ''x'' \<in> set (take 2 (toString n))" by simp
    then have "CHR ''x'' \<in> set (toString n)" by (rule in_set_takeD)
    with no_x show False by simp
  qed
  moreover have "take 2 (toString n) \<noteq> ''0X''"
  proof
    assume "take 2 (toString n) = ''0X''"
    then have "CHR ''X'' \<in> set (take 2 (toString n))" by simp
    then have "CHR ''X'' \<in> set (toString n)" by (rule in_set_takeD)
    with no_x show False by simp
  qed
  ultimately show ?thesis by (simp add: parsePrefixed_def parseDigits_toString)
qed

lemma parseInt_toString: "parseInt (toString n) = Some (int n)"
proof -
  obtain c cs where s: "toString n = c # cs"
    using toString_not_Nil [of n] by (cases "toString n") auto
  with toString_decimal [of n] have c: "c \<in> set ''0123456789''" by simp
  then have "\<not> isWhiteSpace c" and "c \<noteq> CHR ''-''" and "c \<noteq> CHR ''+''"
    using decimal_all by blast+
  with s show ?thesis
    using parsePrefixed_toString [of 1 n] by (simp add: parseInt_def)
qed

lemma currentTime_seconds: "1000 \<le> now \<Longrightarrow> parseInt (timeString now) = Some (int (now div 1000))"
  by (simp add: timeString_seconds parseInt_toString)

section \<open>Reachable ledgers accept a new block\<close>

lemma allValid_addBlock:
  assumes "allValid D s" and "hash block = None"
  shows "allValid D (snd (addBlock D now s block))"
proof (cases "addBlock D now s block")
  case (Pair r s')
  show ?thesis
  proof (cases r)
    case (Inl e)
    with Pair have "s' = s" by (simp add: addBlock_failure)
    with Pair assms show ?thesis by simp
  next
    case (Inr b')
    with Pair have ok: "addBlock D now s block = (Inr b', s')" by simp
    from addBlock_success(9) [OF ok] assms(2) have "validate D b'"
      by (simp add: validate_def)
    with addBlock_success(2) [OF ok] assms(1) Pair show ?thesis
      by (simp add: allValid_def)
  qed
qed

lemma reachable_allValid: "reachable D s \<Longrightarrow> allValid D s"
proof (induction rule: reachable.induct)
  case constructed
  show ?case by (simp add: constructor_def allValid_def)
next
  case (initialized s now)
  with initializeChain_state [of D now s]
    allValid_addBlock [of D s "Block (Data ''Genesis Block'')" now]
  show ?case by (auto simp: Block_def)
next
  case (appended s now d)
  with allValid_addBlock [of D s "Block d" now]
  show ?case by (simp add: Block_def)
next
  case (submitted s verify now now' address message signature star)
  with submitStar_state [of D verify now now' s address message signature star]
    allValid_addBlock [of D s "Block (StarData star address)" now']
  show ?case by (auto simp: Block_def)
qed

lemma reachable_valid: "reachable D s \<Longrightarrow> validateChain D s = []"
proof -
  assume r: "reachable D s"
  then have shape: "ledgerShape s" and av: "allValid D s"
    by (simp_all add: reachable_shape reachable_allValid)
  have "\<forall>i < length (chain s). validate D (chain s ! i) \<and>
        previousBlockHash (chain s ! i) = (if i = 0 then None else hash (chain s ! (i - 1)))"
    using shape av by (auto simp: ledgerShape_def wellFormed_def allValid_def)
  then show ?thesis by (simp add: validateChain_violations violations_Nil_iff)
qed

lemma reachable_addBlock_succeeds:
  assumes r: "reachable D s" and ne: "\<forall>b. D b \<noteq> []"
  shows "\<not> isl (fst (addBlock D now s block))"
proof (cases "wellFormed s")
  case True
  from r have av: "allValid D s" and v: "validateChain D s = []"
    by (simp_all add: reachable_allValid reachable_valid)
  from True have len: "height s = int (length (chain s))" and nonempty: "chain s \<noteq> []"
    by (simp_all add: wellFormed_def)
  from av nonempty have "validate D (last (chain s))" by (simp add: allValid_def)
  with ne have h: "hash (last (chain s)) \<noteq> None" "hash (last (chain s)) \<noteq> Some []"
    by (auto simp: validate_def)
  from at_last [OF nonempty] len have "at (chain s) (height s - 1) = Some (last (chain s))"
    by simp
  with v h show ?thesis by (simp add: addBlock_def Let_def)
next
  case False
  with reachable_shape [OF r] have "chain s = []" and "height s = - 1"
    by (simp_all add: ledgerShape_def)
  then have "s = \<lparr>chain = [], height = - 1\<rparr>" by simp
  then show ?thesis by (simp add: addBlock_genesis)
qed

section \<open>Submitting a star\<close>

lemma elapsed_seconds:
  "1000 \<le> now \<Longrightarrow> messageTime message = Some m \<Longrightarrow>
   elapsedIsMoreThan5Minutes now message \<longleftrightarrow> 300 < int (now div 1000) - m"
  by (simp add: elapsedIsMoreThan5Minutes_def elapsedTime_def currentTime_seconds)

lemma elapsed_NaN: "messageTime message = None \<Longrightarrow> \<not> elapsedIsMoreThan5Minutes now message"
  by (simp add: elapsedIsMoreThan5Minutes_def elapsedTime_def split: option.splits)

lemma submitStar_expired:
  "elapsedIsMoreThan5Minutes now message \<Longrightarrow>
   submitStar D verify now now' s address message signature star =
     (Inl (Error ''Elapsed time is more then 5 minutes.''), s)"
  by (simp add: submitStar_def)

lemma submitStar_rejected:
  "\<not> elapsedIsMoreThan5Minutes now message \<Longrightarrow> verify message address signature = Inr False \<Longrightarrow>
   submitStar D verify now now' s address message signature star =
     (Inl (Error ''Message validation with address and signature failed.''), s)"
  by (simp add: submitStar_def)

lemma submitStar_verified:
  "\<not> elapsedIsMoreThan5Minutes now message \<Longrightarrow> verify message address signature = Inr True \<Longrightarrow>
   submitStar D verify now now' s address message signature star =
     (case addBlock D now' s (Block (StarData star address)) of
        (Inl e, s') \<Rightarrow> (Inl (Error (failureToString e)), s')
      | (Inr blockAdded, s') \<Rightarrow> (Inr blockAdded, s'))"
  by (simp add: submitStar_def)

lemma submitStar_in_time:
  "\<not> elapsedIsMoreThan5Minutes now message \<Longrightarrow>
   submitStar D verify now now' s address message signature star =
     (case verify message address signature of
        Inl e \<Rightarrow> (Inl e, s)
      | Inr isValid \<Rightarrow>
          if \<not> isValid
          then (Inl (Error ''Message validation with address and signature failed.''), s)
          else
            (case addBlock D now' s (Block (StarData star address)) of
               (Inl e, s') \<Rightarrow> (Inl (Error (failureToString e)), s')
             | (Inr blockAdded, s') \<Rightarrow> (Inr blockAdded, s')))"
  by (simp add: submitStar_def)

lemma messageTime_empty: "messageTime ''1A1z::starRegistry'' = None"
  by (simp add: messageTime_def at_def parseInt_def)

lemma messageTime_future: "messageTime ''1A1z:1700000900:starRegistry'' = Some 1700000900"
  by (simp add: messageTime_def at_def parseInt_def isWhiteSpace_def parsePrefixed_def
      parseDigits_def isDigit_def digitValue_def digitTable_def digitsValue_def)

text \<open>
  C2. The claim asks that \<open>submitStar\<close> refuse a message without a readable time. The code
  does not: the time of such a message is \<open>NaN\<close>, so is the elapsed time, and the
  comparison \<open>elapsedTime > fiveMinutes\<close> is false, although the comment of the method
  asks at its step 3 for an elapsed time of less than five minutes. Evaluated at a message
  with an empty time and a signature that verifies, the call resolves with the appended
  star block, and the same message is accepted again a year later.
\<close>

theorem submitStar_no_timestamp_accepted:
  "messageTime ''1A1z::starRegistry'' = None \<and>
   submitStar exampleDigest acceptAll 1700000100000 1700000100500 genesisLedger
       ''1A1z'' ''1A1z::starRegistry'' ''sig'' ''Sirius'' =
     (Inr \<lparr>hash = Some ''#1/1700000100/#0/1700000000/null/data=Genesis Block/star=Sirius,address=1A1z'',
           bheight = 1, body = StarData ''Sirius'' ''1A1z'', time = ''1700000100'',
           previousBlockHash = Some ''#0/1700000000/null/data=Genesis Block''\<rparr>,
      starLedger) \<and>
   \<not> isl (fst (submitStar exampleDigest acceptAll 1731536100000 1731536100500 genesisLedger
       ''1A1z'' ''1A1z::starRegistry'' ''sig'' ''Sirius''))"
proof -
  have fresh: "\<not> elapsedIsMoreThan5Minutes now ''1A1z::starRegistry''" for now
    by (rule elapsed_NaN [OF messageTime_empty])
  have ok: "acceptAll ''1A1z::starRegistry'' ''1A1z'' ''sig'' = Inr True"
    by (simp add: acceptAll_def)
  have first: "submitStar exampleDigest acceptAll 1700000100000 1700000100500 genesisLedger
       ''1A1z'' ''1A1z::starRegistry'' ''sig'' ''Sirius'' =
     (Inr \<lparr>hash = Some ''#1/1700000100/#0/1700000000/null/data=Genesis Block/star=Sirius,address=1A1z'',
           bheight = 1, body = StarData ''Sirius'' ''1A1z'', time = ''1700000100'',
           previousBlockHash = Some ''#0/1700000000/null/data=Genesis Block''\<rparr>,
      starLedger)"
    using submitStar_verified [of 1700000100000 "''1A1z::starRegistry''" acceptAll "''1A1z''"
        "''sig''" exampleDigest 1700000100500 genesisLedger "''Sirius''"] fresh ok
    by (simp add: addBlock_example)
  have "\<not> isl (fst (addBlock exampleDigest 1731536100500 genesisLedger
      (Block (StarData ''Sirius'' ''1A1z''))))"
    by (rule reachable_addBlock_succeeds [OF reachable_genesisLedger exampleDigest_not_Nil])
  then have later: "\<not> isl (fst (submitStar exampleDigest acceptAll 1731536100000 1731536100500
       genesisLedger ''1A1z'' ''1A1z::starRegistry'' ''sig'' ''Sirius''))"
    using submitStar_verified [of 1731536100000 "''1A1z::starRegistry''" acceptAll "''1A1z''"
        "''sig''" exampleDigest 1731536100500 genesisLedger "''Sirius''"] fresh ok
    by (auto split: prod.splits sum.splits)
  from first later show ?thesis by (simp add: messageTime_empty)
qed

text \<open>
  C3, amended. When the signature does not verify, \<open>submitStar\<close> fails and leaves the
  ledger as it was. The check of the elapsed time comes first: the failure is the error of
  the elapsed time when more than five minutes have elapsed, and the error of the message
  validation otherwise.
\<close>

theorem submitStar_bad_signature:
  "verify message address signature = Inr False \<Longrightarrow>
   (elapsedIsMoreThan5Minutes now message \<longrightarrow>
      submitStar D verify now now' s address message signature star =
        (Inl (Error ''Elapsed time is more then 5 minutes.''), s)) \<and>
   (\<not> elapsedIsMoreThan5Minutes now message \<longrightarrow>
      submitStar D verify now now' s address message signature star =
        (Inl (Error ''Message validation with address and signature failed.''), s)) \<and>
   isl (fst (submitStar D verify now now' s address message signature star)) \<and>
   snd (submitStar D verify now now' s address message signature star) = s"
  using submitStar_expired [of now message D verify now' s address signature star]
    submitStar_rejected [of now message verify address signature D now' s star]
  by (cases "elapsedIsMoreThan5Minutes now message") simp_all

theorem submitStar_bad_signature_witness:
  "rejectAll ''1A1z:1700000900:starRegistry'' ''1A1z'' ''bad'' = Inr False \<and>
   \<not> elapsedIsMoreThan5Minutes 1700000900000 ''1A1z:1700000900:starRegistry'' \<and>
   submitStar exampleDigest rejectAll 1700000900000 1700000900500 genesisLedger
       ''1A1z'' ''1A1z:1700000900:starRegistry'' ''bad'' ''Sirius'' =
     (Inl (Error ''Message validation with address and signature failed.''), genesisLedger)"
proof -
  have rej: "rejectAll ''1A1z:1700000900:starRegistry'' ''1A1z'' ''bad'' = Inr False"
    by (simp add: rejectAll_def)
  have fresh: "\<not> elapsedIsMoreThan5Minutes 1700000900000 ''1A1z:1700000900:starRegistry''"
    by (simp add: elapsed_seconds [OF _ messageTime_future])
  from submitStar_bad_signature [of rejectAll "''1A1z:1700000900:starRegistry''" "''1A1z''"
      "''bad''" 1700000900000 exampleDigest 1700000900500 genesisLedger "''Sirius''"] rej fresh
  show ?thesis by blast
qed

text \<open>
  The claim C3 as it was stated fails on a message that is 900 seconds old: a signature that
  does not verify is answered with the error of the elapsed time.
\<close>

theorem submitStar_bad_signature_counterexample:
  "rejectAll ''1A1z:1700000000:starRegistry'' ''1A1z'' ''bad'' = Inr False \<and>
   submitStar exampleDigest rejectAll 1700000900000 1700000900500 genesisLedger
       ''1A1z'' ''1A1z:1700000000:starRegistry'' ''bad'' ''Sirius'' =
     (Inl (Error ''Elapsed time is more then 5 minutes.''), genesisLedger) \<and>
   submitStar exampleDigest rejectAll 1700000900000 1700000900500 genesisLedger
       ''1A1z'' ''1A1z:1700000000:starRegistry'' ''bad'' ''Sirius'' \<noteq>
     (Inl (Error ''Message validation with address and signature failed.''), genesisLedger)"
proof -
  have "elapsedIsMoreThan5Minutes 1700000900000 ''1A1z:1700000000:starRegistry''"
    by (simp add: elapsed_seconds [OF _ messageTime_example])
  then show ?thesis by (simp add: submitStar_def rejectAll_def)
qed

section \<open>The challenge\<close>

lemma split_no_sep: "sep \<notin> set xs \<Longrightarrow> split sep xs = [xs]"
  by (induction xs) auto

lemma split_prefix: "sep \<notin> set xs \<Longrightarrow> split sep (xs @ sep # ys) = xs # split sep ys"
  by (induction xs) auto

lemma colon_not_decimal: "CHR '':'' \<notin> set (toString n)"
  using toString_decimal [of n] decimal_all by blast

lemma messageTime_challenge:
  assumes "CHR '':'' \<notin> set address"
  shows "messageTime (address @ CHR '':'' # toString n @ '':starRegistry'') = Some (int n)"
proof -
  have "split CHR '':'' (address @ CHR '':'' # toString n @ '':starRegistry'') =
      address # split CHR '':'' (toString n @ CHR '':'' # ''starRegistry'')"
    using split_prefix [OF assms] by simp
  also have "\<dots> = address # toString n # split CHR '':'' ''starRegistry''"
    by (simp add: split_prefix [OF colon_not_decimal])
  finally show ?thesis
    by (simp add: messageTime_def at_def parseInt_toString)
qed

text \<open>
  C9. At any clock reading from one second after the epoch on,
  \<open>requestMessageOwnershipVerification\<close> answers the address, a colon, the decimal digits
  of the Unix time in whole seconds, a colon and \<open>starRegistry\<close>. The digits read back
  as that number of seconds, and, for an address without a colon, \<open>submitStar\<close> reads
  that number as the time of the message. (Below 1000 milliseconds \<open>slice(0, -3)\<close>
  leaves the empty string.)
\<close>

theorem challenge_format:
  "1000 \<le> now \<Longrightarrow>
   requestMessageOwnershipVerification address now =
     address @ '':'' @ toString (now div 1000) @ '':starRegistry'' \<and>
   parseInt (toString (now div 1000)) = Some (int (now div 1000)) \<and>
   (CHR '':'' \<notin> set address \<longrightarrow>
      messageTime (requestMessageOwnershipVerification address now) = Some (int (now div 1000)))"
  by (simp add: requestMessageOwnershipVerification_def timeString_seconds parseInt_toString
      messageTime_challenge)

theorem challenge_format_witness:
  "(1000::nat) \<le> 1700000100000 \<and>
   requestMessageOwnershipVerification ''1A1z'' 1700000100000 = ''1A1z:1700000100:starRegistry'' \<and>
   messageTime (requestMessageOwnershipVerification ''1A1z'' 1700000100000) = Some 1700000100"
proof -
  have late: "(1000::nat) \<le> 1700000100000" by simp
  have secs: "toString (1700000100000 div 1000) = ''1700000100''"
    by (simp add: toString.simps digitChar_def)
  have addr: "CHR '':'' \<notin> set ''1A1z''" by simp
  from challenge_format [OF late, of "''1A1z''"] addr
  have "requestMessageOwnershipVerification ''1A1z'' 1700000100000 =
      ''1A1z'' @ '':'' @ toString (1700000100000 div 1000) @ '':starRegistry''"
    and "messageTime (requestMessageOwnershipVerification ''1A1z'' 1700000100000) =
      Some (int (1700000100000 div 1000))"
    by blast+
  then show ?thesis unfolding secs by simp
qed

section \<open>The time window\<close>

text \<open>
  C7. At any clock reading from one second after the epoch on, a message whose time lies
  more than 300 seconds before the current time in seconds is answered with the error of
  the elapsed time and an unchanged ledger, whatever the verifier says of the signature.
  An elapsed time of at most 300 seconds, a negative one included, passes the check and the
  call goes on to the verification; a message from the future with a signature that
  verifies is appended to any reachable ledger, provided the digest is never the empty
  string.
\<close>

theorem submitStar_time_window:
  "1000 \<le> now \<Longrightarrow> messageTime message = Some m \<Longrightarrow>
   (300 < int (now div 1000) - m \<longrightarrow>
      submitStar D verify now now' s address message signature star =
        (Inl (Error ''Elapsed time is more then 5 minutes.''), s)) \<and>
   (int (now div 1000) - m \<le> 300 \<longrightarrow>
      submitStar D verify now now' s address message signature star =
        (case verify message address signature of
           Inl e \<Rightarrow> (Inl e, s)
         | Inr isValid \<Rightarrow>
             if \<not> isValid
             then (Inl (Error ''Message validation with address and signature failed.''), s)
             else
               (case addBlock D now' s (Block (StarData star address)) of
                  (Inl e, s') \<Rightarrow> (Inl (Error (failureToString e)), s')
                | (Inr blockAdded, s') \<Rightarrow> (Inr blockAdded, s')))) \<and>
   (int (now div 1000) - m < 0 \<and> verify message address signature = Inr True \<and>
    reachable D s \<and> (\<forall>b. D b \<noteq> []) \<longrightarrow>
      \<not> isl (fst (submitStar D verify now now' s address message signature star)))"
proof (intro conjI impI)
  assume late: "1000 \<le> now" and m: "messageTime message = Some m"
  {
    assume "300 < int (now div 1000) - m"
    with elapsed_seconds [OF late m] have "elapsedIsMoreThan5Minutes now message" by simp
    then show "submitStar D verify now now' s address message signature star =
        (Inl (Error ''Elapsed time is more then 5 minutes.''), s)"
      by (rule submitStar_expired)
  next
    assume "int (now div 1000) - m \<le> 300"
    with elapsed_seconds [OF late m] have "\<not> elapsedIsMoreThan5Minutes now message" by simp
    then show "submitStar D verify now now' s address message signature star =
        (case verify message address signature of
           Inl e \<Rightarrow> (Inl e, s)
         | Inr isValid \<Rightarrow>
             if \<not> isValid
             then (Inl (Error ''Message validation with address and signature failed.''), s)
             else
               (case addBlock D now' s (Block (StarData star address)) of
                  (Inl e, s') \<Rightarrow> (Inl (Error (failureToString e)), s')
                | (Inr blockAdded, s') \<Rightarrow> (Inr blockAdded, s')))"
      by (rule submitStar_in_time)
  next
    assume a: "int (now div 1000) - m < 0 \<and> verify message address signature = Inr True \<and>
      reachable D s \<and> (\<forall>b. D b \<noteq> [])"
    with elapsed_seconds [OF late m] have fresh: "\<not> elapsedIsMoreThan5Minutes now message"
      by simp
    from a have "\<not> isl (fst (addBlock D now' s (Block (StarData star address))))"
      by (simp add: reachable_addBlock_succeeds)
    with a submitStar_verified [OF fresh, of verify address signature D now' s star]
    show "\<not> isl (fst (submitStar D verify now now' s address message signature star))"
      by (auto split: prod.splits sum.splits)
  }
qed


theorem submitStar_time_window_witness:
  "(1000::nat) \<le> 1700000900000 \<and>
   messageTime ''1A1z:1700000000:starRegistry'' = Some 1700000000 \<and>
   submitStar exampleDigest acceptAll 1700000900000 1700000900500 genesisLedger
       ''1A1z'' ''1A1z:1700000000:starRegistry'' ''sig'' ''Sirius'' =
     (Inl (Error ''Elapsed time is more then 5 minutes.''), genesisLedger) \<and>
   (1000::nat) \<le> 1700000100000 \<and>
   messageTime ''1A1z:1700000900:starRegistry'' = Some 1700000900 \<and>
   \<not> isl (fst (submitStar exampleDigest acceptAll 1700000100000 1700000100500 genesisLedger
       ''1A1z'' ''1A1z:1700000900:starRegistry'' ''sig'' ''Sirius''))"
proof -
  have late: "(1000::nat) \<le> 1700000900000" and early: "(1000::nat) \<le> 1700000100000"
    by simp_all
  have old: "(300::int) < int (1700000900000 div 1000) - 1700000000" by simp
  have future: "int (1700000100000 div 1000) - 1700000900 < (0::int)" by simp
  have ok: "acceptAll ''1A1z:1700000900:starRegistry'' ''1A1z'' ''sig'' = Inr True"
    by (simp add: acceptAll_def)
  from submitStar_time_window [OF late messageTime_example, of exampleDigest acceptAll
      1700000900500 genesisLedger "''1A1z''" "''sig''" "''Sirius''"] old
  have expired: "submitStar exampleDigest acceptAll 1700000900000 1700000900500 genesisLedger
       ''1A1z'' ''1A1z:1700000000:starRegistry'' ''sig'' ''Sirius'' =
     (Inl (Error ''Elapsed time is more then 5 minutes.''), genesisLedger)"
    by blast
  from submitStar_time_window [OF early messageTime_future, of exampleDigest acceptAll
      1700000100500 genesisLedger "''1A1z''" "''sig''" "''Sirius''"]
    future ok reachable_genesisLedger exampleDigest_not_Nil
  have accepted: "\<not> isl (fst (submitStar exampleDigest acceptAll 1700000100000 1700000100500
       genesisLedger ''1A1z'' ''1A1z:1700000900:starRegistry'' ''sig'' ''Sirius''))"
    by blast
  from late early expired accepted show ?thesis
    by (simp add: messageTime_example messageTime_future)
qed

end
